theory Spec2Isabelle
  imports Main
begin

section \<open>The DN transform: \<open>make_gridmap_compatible\<close>\<close>

text \<open>
  Python strings are modelled as \<open>string\<close>; one \<open>char\<close> stands for one character of the
  Python \<open>str\<close>, which is exact for the ASCII text of distinguished names and usernames.

  \<^verbatim>\<open>
  def make_gridmap_compatible(self, certificate):
      certificate = certificate.split(',')
      certificate.reverse()
      certificate = '/'.join(certificate)
      certificate = '/' + certificate
      return certificate
  \<close>

  \<open>str.split(sep)\<close> with a one-character separator scans the text from the left and cuts a
  piece at every separator; the piece being collected is \<open>cur\<close>. It always returns at least
  one piece (\<open>''''\<close> splits into \<open>['''']\<close>), and empty pieces are kept.
\<close>

fun split_scan :: "char \<Rightarrow> string \<Rightarrow> string \<Rightarrow> string list" where
  "split_scan sep cur [] = [cur]"
| "split_scan sep cur (x # xs) =
     (if x = sep then cur # split_scan sep [] xs else split_scan sep (cur @ [x]) xs)"

definition py_split :: "char \<Rightarrow> string \<Rightarrow> string list" where
  "py_split sep s = split_scan sep [] s"

text \<open>\<open>sep.join(pieces)\<close>: the pieces with \<open>sep\<close> between neighbours.\<close>

fun py_join :: "string \<Rightarrow> string list \<Rightarrow> string" where
  "py_join sep [] = []"
| "py_join sep [p] = p"
| "py_join sep (p # q # ps) = p @ sep @ py_join sep (q # ps)"

definition make_gridmap_compatible :: "string \<Rightarrow> string" where
  "make_gridmap_compatible certificate =
     (let certificate1 = py_split (CHR '','') certificate;
          certificate2 = rev certificate1;
          certificate3 = py_join ''/'' certificate2
      in ''/'' @ certificate3)"

subsection \<open>The transform as the specification words it\<close>

text \<open>
  The specification's \<open>toCanonicalKey\<close>: split the input on \<open>,\<close> into the ordered sequence
  of components, reverse the sequence, join it with \<open>/\<close>, prepend a leading \<open>/\<close>. The
  components are written here, independently of the scan above, as the maximal comma-free
  stretches of the input: the text before the first comma, then the components of what
  follows that comma.
\<close>

function components :: "string \<Rightarrow> string list" where
  "components s =
     (if CHR '','' \<in> set s
      then takeWhile (\<lambda>c. c \<noteq> CHR '','') s
           # components (tl (dropWhile (\<lambda>c. c \<noteq> CHR '','') s))
      else [s])"
  by pat_completeness auto
termination
proof (relation "measure length")
  show "wf (measure length)" by simp
next
  fix s :: string
  assume "CHR '','' \<in> set s"
  then have "dropWhile (\<lambda>c. c \<noteq> CHR '','') s \<noteq> []" by simp
  then have "length (tl (dropWhile (\<lambda>c. c \<noteq> CHR '','') s))
               < length (dropWhile (\<lambda>c. c \<noteq> CHR '','') s)"
    by simp
  also have "\<dots> \<le> length s" by (rule length_dropWhile_le)
  finally show "(tl (dropWhile (\<lambda>c. c \<noteq> CHR '','') s), s) \<in> measure length"
    by simp
qed

definition joined_with_slash :: "string list \<Rightarrow> string" where
  "joined_with_slash comps = tl (concat (map (\<lambda>c. CHR ''/'' # c) comps))"

definition toCanonicalKey :: "string \<Rightarrow> string" where
  "toCanonicalKey subjectDn = CHR ''/'' # joined_with_slash (rev (components subjectDn))"


section \<open>Directory users and the SCIM listing\<close>

text \<open>
  The part of a user object the script reads: \<open>user['userName']\<close>,
  \<open>user['emails'][i]['value']\<close> (the list of the entries' values, possibly empty),
  \<open>user['id']\<close>, and the optional block \<open>user['urn:indigo-dc:scim:schemas:IndigoUser']\<close>
  with its optional \<open>certificates\<close> list, each entry with an optional \<open>subjectDn\<close>.
  A key the script tests with \<open>in\<close> is an \<open>option\<close>.
\<close>

record certificate =
  subjectDn :: "string option"

record indigo_user =
  certificates :: "certificate list option"

record directory_user =
  userName :: string
  emails :: "string list"
  user_id :: string
  indigoUser :: "indigo_user option"

text \<open>One page of the listing: \<open>Resources\<close>, \<open>itemsPerPage\<close>, \<open>totalResults\<close>.\<close>

record scim_response =
  Resources :: "directory_user list"
  itemsPerPage :: int
  totalResults :: int

text \<open>
  Exceptions are values. \<open>IndexError\<close> is what \<open>user['emails'][0]\<close> raises on an empty
  list; \<open>Raised name\<close> is any exception thrown by a collaborator (the HTTP client, the JSON
  decoder, the account store), named by its class.
\<close>

datatype error = IndexError | Raised string

text \<open>
  \<open>requests.get(url, headers = {Authorization: auth}, params = {startIndex, count})\<close>
  followed by \<open>json.loads\<close> and the reads of the three keys: the endpoint is a parameter
  that answers a request with a page or with an exception. The same request gets the same
  answer (one snapshot of the directory).
\<close>

type_synonym http_get = "string \<Rightarrow> string \<Rightarrow> int \<Rightarrow> int \<Rightarrow> error + scim_response"

text \<open>
  \<^verbatim>\<open>
  startIndex = 1
  count = 100
  iam_users = []
  users_so_far = 0
  while True:
      params_d = {"startIndex": startIndex, "count": count}
      response = requests.get(...); response = json.loads(response.text)
      iam_users += response['Resources']
      users_so_far += response['itemsPerPage']
      if users_so_far < response['totalResults']:
          startIndex += count
      else:
          break
  return iam_users
  \<close>

  The loop has no bound of its own, so it is a partial function: \<open>None\<close> is a run that
  never returns. Beside the source's result the model returns \<open>sent\<close>, the list of the
  \<open>(startIndex, count)\<close> parameters of the requests made, in order; it is a record of the
  run and influences nothing.
\<close>

partial_function (option) fetch_pages ::
  "(int \<Rightarrow> int \<Rightarrow> error + scim_response) \<Rightarrow> int \<Rightarrow> int \<Rightarrow> directory_user list \<Rightarrow> int
     \<Rightarrow> (int \<times> int) list \<Rightarrow> ((error + directory_user list) \<times> (int \<times> int) list) option"
where
  "fetch_pages get startIndex count iam_users users_so_far sent =
     (case get startIndex count of
        Inl e \<Rightarrow> Some (Inl e, sent @ [(startIndex, count)])
      | Inr response \<Rightarrow>
          (if users_so_far + itemsPerPage response < totalResults response
           then fetch_pages get (startIndex + count) count (iam_users @ Resources response)
                  (users_so_far + itemsPerPage response) (sent @ [(startIndex, count)])
           else Some (Inr (iam_users @ Resources response), sent @ [(startIndex, count)])))"

definition get_list_of_users ::
  "http_get \<Rightarrow> string \<Rightarrow> string
     \<Rightarrow> ((error + directory_user list) \<times> (int \<times> int) list) option" where
  "get_list_of_users http iam_server access_token =
     fetch_pages (http (iam_server @ ''/scim/Users'') (''Bearer '' @ access_token)) 1 100 [] 0 []"

text \<open>
  A directory that holds the users \<open>us\<close> and serves them as the listing endpoint is
  described: the page asked for with a 1-based \<open>startIndex\<close> and \<open>count\<close> holds the
  users from that position on, at most \<open>count\<close> of them; \<open>itemsPerPage\<close> is the number of
  users in the page and \<open>totalResults\<close> the size of the directory.
\<close>

definition scim_directory :: "directory_user list \<Rightarrow> int \<Rightarrow> int \<Rightarrow> error + scim_response" where
  "scim_directory us startIndex count =
     (let page = take (nat count) (drop (nat (startIndex - 1)) us)
      in Inr \<lparr>Resources = page, itemsPerPage = int (length page),
               totalResults = int (length us)\<rparr>)"

text \<open>A directory that reports one user and never delivers it.\<close>

definition stalled_directory :: "int \<Rightarrow> int \<Rightarrow> error + scim_response" where
  "stalled_directory startIndex count =
     Inr \<lparr>Resources = [], itemsPerPage = 0, totalResults = 1\<rparr>"

text \<open>
  A directory that holds the users \<open>us\<close>, serves them page by page like
  \<open>scim_directory\<close>, and reports one user more than it holds.
\<close>

definition overcounting_directory ::
  "directory_user list \<Rightarrow> int \<Rightarrow> int \<Rightarrow> error + scim_response" where
  "overcounting_directory us startIndex count =
     (let page = take (nat count) (drop (nat (startIndex - 1)) us)
      in Inr \<lparr>Resources = page, itemsPerPage = int (length page),
               totalResults = int (length us) + 1\<rparr>)"

text \<open>The number of pages of \<open>P\<close> items that hold \<open>T\<close> items: \<open>ceil(T/P)\<close>.\<close>

definition pages_needed :: "nat \<Rightarrow> nat \<Rightarrow> nat" where
  "pages_needed T P = (T + P - 1) div P"


text \<open>
  The requests that fetch a directory of \<open>T\<close> users in pages of \<open>P\<close>: one request for each
  page, with the start indices \<open>1\<close>, \<open>1 + P\<close>, \<open>1 + 2P\<close>, ..., and at least one request.
\<close>

definition page_requests :: "nat \<Rightarrow> nat \<Rightarrow> (int \<times> int) list" where
  "page_requests P T =
     map (\<lambda>j. (1 + int (j * P), int P)) [0..<max 1 (pages_needed T P)]"

section \<open>The account store and the three passes\<close>

text \<open>
  The account and identity store (the \<open>rucio\<close> packages) is a collaborator: each of its
  operations used by the script is a field of \<open>store\<close>, a function on the store's state
  \<open>'s\<close> that returns normally or raises, and leaves a new state either way.
  \<open>InternalAccount(username)\<close> is the username. The fields: \<open>get_session()\<close>,
  \<open>session.connection()\<close>, \<open>account.account_exists\<close>, \<open>account.add_account\<close>,
  \<open>rse.list_rses\<close>, \<open>set_local_account_limit\<close>, \<open>add_account_attribute\<close>,
  \<open>identity.add_account_identity\<close>.
\<close>

datatype account_type = SERVICE

datatype identity_type = OIDC | X509

record rse =
  rse_id :: string

record 's store =
  get_session :: "'s \<Rightarrow> (error + unit) \<times> 's"
  connection :: "'s \<Rightarrow> (error + unit) \<times> 's"
  account_exists :: "string \<Rightarrow> 's \<Rightarrow> (error + bool) \<times> 's"
  add_account :: "string \<Rightarrow> account_type \<Rightarrow> string \<Rightarrow> 's \<Rightarrow> (error + unit) \<times> 's"
  list_rses :: "'s \<Rightarrow> (error + rse list) \<times> 's"
  set_local_account_limit :: "string \<Rightarrow> string \<Rightarrow> int \<Rightarrow> 's \<Rightarrow> (error + unit) \<times> 's"
  add_account_attribute :: "string \<Rightarrow> string \<Rightarrow> string \<Rightarrow> 's \<Rightarrow> (error + unit) \<times> 's"
  add_account_identity ::
    "string \<Rightarrow> identity_type \<Rightarrow> string \<Rightarrow> string \<Rightarrow> 's \<Rightarrow> (error + unit) \<times> 's"

text \<open>
  What a run does that can be observed from outside: every call it submits to the store,
  with the arguments and with what the store answered, and every line it logs with
  \<open>logging.debug\<close>, in order.
\<close>

datatype event =
    GetSession "error + unit"
  | Connection "error + unit"
  | AccountExists string "error + bool"
  | AddAccount string account_type string "error + unit"
  | ListRses "error + rse list"
  | SetLocalAccountLimit string string int "error + unit"
  | AddAccountAttribute string string string "error + unit"
  | AddAccountIdentity string identity_type string string "error + unit"
  | LoggingDebug string

text \<open>
  A piece of the script is a function from the store's state to its outcome (a value, or
  the exception that escapes it), the events it produced and the state it leaves.
\<close>

type_synonym ('a, 's) act = "'s \<Rightarrow> (error + 'a) \<times> event list \<times> 's"

definition ret :: "'a \<Rightarrow> ('a, 's) act" where
  "ret a s = (Inr a, [], s)"

definition raise :: "error \<Rightarrow> ('a, 's) act" where
  "raise e s = (Inl e, [], s)"

text \<open>Sequencing: an exception in the first part skips the second.\<close>

definition seq :: "('a, 's) act \<Rightarrow> ('a \<Rightarrow> ('b, 's) act) \<Rightarrow> ('b, 's) act" where
  "seq m f s =
     (case m s of
        (Inl e, t, s') \<Rightarrow> (Inl e, t, s')
      | (Inr a, t, s') \<Rightarrow> (case f a s' of (r, t', s'') \<Rightarrow> (r, t @ t', s'')))"

text \<open>\<open>try: m  except: pass\<close>: the bare handler catches every exception.\<close>

definition try_except_pass :: "(unit, 's) act \<Rightarrow> (unit, 's) act" where
  "try_except_pass m s = (case m s of (r, t, s') \<Rightarrow> (Inr (), t, s'))"

text \<open>A call of a store operation, recorded with its answer.\<close>

definition call :: "(error + 'a \<Rightarrow> event) \<Rightarrow> ('s \<Rightarrow> (error + 'a) \<times> 's) \<Rightarrow> ('a, 's) act" where
  "call ev operation s = (case operation s of (r, s') \<Rightarrow> (r, [ev r], s'))"

definition logging_debug :: "string \<Rightarrow> (unit, 's) act" where
  "logging_debug msg s = (Inr (), [LoggingDebug msg], s)"

text \<open>\<open>for x in xs: body\<close>; a \<open>continue\<close> in the body is a body that returns at once.\<close>

fun for_each :: "('a \<Rightarrow> (unit, 's) act) \<Rightarrow> 'a list \<Rightarrow> (unit, 's) act" where
  "for_each body [] = ret ()"
| "for_each body (x # xs) = seq (body x) (\<lambda>_. for_each body xs)"

text \<open>\<open>email = user['emails'][0]['value']\<close>\<close>

definition first_email :: "directory_user \<Rightarrow> (string, 's) act" where
  "first_email user = (case emails user of [] \<Rightarrow> raise IndexError | e # _ \<Rightarrow> ret e)"

text \<open>
  \<^verbatim>\<open>
  for rse_obj in rse.list_rses():
      set_local_account_limit(InternalAccount(username), rse_obj['id'], 1000000000000)
  \<close>
\<close>

definition grant_quotas :: "'s store \<Rightarrow> string \<Rightarrow> (unit, 's) act" where
  "grant_quotas st username =
     seq (call ListRses (list_rses st)) (\<lambda>rses.
       for_each (\<lambda>rse_obj.
         call (SetLocalAccountLimit username (rse_id rse_obj) 1000000000000)
              (set_local_account_limit st username (rse_id rse_obj) 1000000000000)) rses)"

text \<open>
  The body of the loop of \<open>sync_accounts\<close>:
  \<^verbatim>\<open>
  username = user['userName']
  email = user['emails'][0]['value']
  if len(username) > 25:
      continue
  if not account.account_exists(InternalAccount(username)):
      account.add_account(InternalAccount(username), AccountType.SERVICE, email)
      logging.debug('Created account for User {} ***'.format(username))
      for rse_obj in rse.list_rses(): ...
      try:
          add_account_attribute(InternalAccount(username), 'admin', 'True')
      except:
          pass
  \<close>
\<close>

definition sync_accounts_user :: "'s store \<Rightarrow> directory_user \<Rightarrow> (unit, 's) act" where
  "sync_accounts_user st user =
     (let username = userName user in
      seq (first_email user) (\<lambda>email.
        if length username > 25 then ret ()
        else
          seq (call (AccountExists username) (account_exists st username)) (\<lambda>exists.
            if \<not> exists then
              seq (call (AddAccount username SERVICE email)
                        (add_account st username SERVICE email)) (\<lambda>_.
              seq (logging_debug (''Created account for User '' @ username @ '' ***'')) (\<lambda>_.
              seq (grant_quotas st username) (\<lambda>_.
              try_except_pass
                (call (AddAccountAttribute username ''admin'' ''True'')
                      (add_account_attribute st username ''admin'' ''True'')))))
            else ret ())))"

text \<open>\<open>session = get_session(); session.connection()\<close>, the opening of every pass.\<close>

definition open_session :: "'s store \<Rightarrow> (unit, 's) act" where
  "open_session st = seq (call GetSession (get_session st)) (\<lambda>_. call Connection (connection st))"

definition sync_accounts :: "'s store \<Rightarrow> directory_user list \<Rightarrow> (unit, 's) act" where
  "sync_accounts st iam_users =
     seq (open_session st) (\<lambda>_. for_each (sync_accounts_user st) iam_users)"

text \<open>
  The body of the loop of \<open>sync_oidc\<close>:
  \<^verbatim>\<open>
  username = user['userName']
  email = user['emails'][0]['value']
  user_subject = user['id']
  if len(username) > 25:
      continue
  try:
      user_identity = "SUB={}, ISS={}".format(user_subject, self.iam_server)
      identity.add_account_identity(user_identity, IdentityType.OIDC,
                                    InternalAccount(username), email)
      logging.debug('Added OIDC identity for User {} ***'.format(username))
  except:
      pass
  \<close>
\<close>

definition sync_oidc_user :: "'s store \<Rightarrow> string \<Rightarrow> directory_user \<Rightarrow> (unit, 's) act" where
  "sync_oidc_user st iam_server user =
     (let username = userName user in
      seq (first_email user) (\<lambda>email.
        let user_subject = user_id user in
        if length username > 25 then ret ()
        else
          try_except_pass
            (let user_identity = ''SUB='' @ user_subject @ '', ISS='' @ iam_server in
             seq (call (AddAccountIdentity user_identity OIDC username email)
                       (add_account_identity st user_identity OIDC username email)) (\<lambda>_.
             logging_debug (''Added OIDC identity for User '' @ username @ '' ***'')))))"

definition sync_oidc :: "'s store \<Rightarrow> string \<Rightarrow> directory_user list \<Rightarrow> (unit, 's) act" where
  "sync_oidc st iam_server iam_users =
     seq (open_session st) (\<lambda>_. for_each (sync_oidc_user st iam_server) iam_users)"

text \<open>
  The body of the loop of \<open>sync_x509\<close>:
  \<^verbatim>\<open>
  username = user['userName']
  email = user['emails'][0]['value']
  if 'urn:indigo-dc:scim:schemas:IndigoUser' in user:
      indigo_user = user['urn:indigo-dc:scim:schemas:IndigoUser']
      if 'certificates' in indigo_user:
          for certificate in indigo_user['certificates']:
              if 'subjectDn' in certificate:
                  subjectDn = self.make_gridmap_compatible(certificate['subjectDn'])
                  try:
                      identity.add_account_identity(subjectDn, IdentityType.X509,
                                                    InternalAccount(username), email)
                      logging.debug('Added X509 identity for User {} ***'.format(username))
                  except:
                      pass
  \<close>
  There is no test of the username's length in this loop.
\<close>

definition sync_x509_certificate ::
  "'s store \<Rightarrow> string \<Rightarrow> string \<Rightarrow> certificate \<Rightarrow> (unit, 's) act" where
  "sync_x509_certificate st username email certificate =
     (case subjectDn certificate of
        None \<Rightarrow> ret ()
      | Some dn \<Rightarrow>
          (let subjectDn = make_gridmap_compatible dn in
           try_except_pass
             (seq (call (AddAccountIdentity subjectDn X509 username email)
                        (add_account_identity st subjectDn X509 username email)) (\<lambda>_.
              logging_debug (''Added X509 identity for User '' @ username @ '' ***'')))))"

definition sync_x509_user :: "'s store \<Rightarrow> directory_user \<Rightarrow> (unit, 's) act" where
  "sync_x509_user st user =
     (let username = userName user in
      seq (first_email user) (\<lambda>email.
        case indigoUser user of
          None \<Rightarrow> ret ()
        | Some indigo_user \<Rightarrow>
            (case certificates indigo_user of
               None \<Rightarrow> ret ()
             | Some certs \<Rightarrow> for_each (sync_x509_certificate st username email) certs)))"

definition sync_x509 :: "'s store \<Rightarrow> directory_user list \<Rightarrow> (unit, 's) act" where
  "sync_x509 st iam_users =
     seq (open_session st) (\<lambda>_. for_each (sync_x509_user st) iam_users)"


section \<open>Reading a run\<close>

definition outcome :: "(error + 'a) \<times> event list \<times> 's \<Rightarrow> error + 'a" where
  "outcome run = fst run"

definition events :: "(error + 'a) \<times> event list \<times> 's \<Rightarrow> event list" where
  "events run = fst (snd run)"

definition final :: "(error + 'a) \<times> event list \<times> 's \<Rightarrow> 's" where
  "final run = snd (snd run)"

text \<open>An existence probe.\<close>

fun is_probe :: "event \<Rightarrow> bool" where
  "is_probe (AccountExists u r) = True"
| "is_probe _ = False"

text \<open>
  The calls that provision the account \<open>u\<close>: its creation, a quota grant for it, the
  attach of an attribute to it.
\<close>

fun provisions :: "string \<Rightarrow> event \<Rightarrow> bool" where
  "provisions u (AddAccount v ty email r) = (v = u)"
| "provisions u (SetLocalAccountLimit v rid n r) = (v = u)"
| "provisions u (AddAccountAttribute v k x r) = (v = u)"
| "provisions u _ = False"

text \<open>The quota grants and attribute attaches for \<open>u\<close> alone.\<close>

fun grants :: "string \<Rightarrow> event \<Rightarrow> bool" where
  "grants u (SetLocalAccountLimit v rid n r) = (v = u)"
| "grants u (AddAccountAttribute v k x r) = (v = u)"
| "grants u _ = False"

text \<open>What follows a creation of the account \<open>u\<close> in the account pass.\<close>

fun follow_up :: "string \<Rightarrow> event \<Rightarrow> bool" where
  "follow_up u (ListRses r) = True"
| "follow_up u (SetLocalAccountLimit v rid n r) = (v = u)"
| "follow_up u (AddAccountAttribute v k x r) = (v = u)"
| "follow_up u (LoggingDebug msg) = True"
| "follow_up u _ = False"

text \<open>The successful creations of the account \<open>u\<close>.\<close>

fun created :: "string \<Rightarrow> event \<Rightarrow> bool" where
  "created u (AddAccount v ty email r) = (v = u \<and> r = Inr ())"
| "created u _ = False"

text \<open>
  Every account creation in a run comes directly after a probe of the same account that
  the store answered with \<open>False\<close>: \<open>after_probe prev e\<close> tests one event \<open>e\<close> against
  the event \<open>prev\<close> before it, \<open>creates_probed_from\<close> walks the run.
\<close>

definition after_probe :: "event option \<Rightarrow> event \<Rightarrow> bool" where
  "after_probe prev e =
     (case e of
        AddAccount v ty email r \<Rightarrow> prev = Some (AccountExists v (Inr False))
      | _ \<Rightarrow> True)"

fun creates_probed_from :: "event option \<Rightarrow> event list \<Rightarrow> bool" where
  "creates_probed_from prev [] = True"
| "creates_probed_from prev (e # es) = (after_probe prev e \<and> creates_probed_from (Some e) es)"

definition creates_probed :: "event list \<Rightarrow> bool" where
  "creates_probed t = creates_probed_from None t"

text \<open>The identity links a run submitted, in order, without the store's answers.\<close>

fun link_of :: "event \<Rightarrow> (string \<times> identity_type \<times> string \<times> string) list" where
  "link_of (AddAccountIdentity k ty u email r) = [(k, ty, u, email)]"
| "link_of _ = []"

definition link_requests :: "event list \<Rightarrow> (string \<times> identity_type \<times> string \<times> string) list" where
  "link_requests t = concat (map link_of t)"





text \<open>
  The lines a run logged, in order, and the lines that the successful links of a run
  call for: \<open>'Added OIDC identity for User {} ***'\<close> or
  \<open>'Added X509 identity for User {} ***'\<close> with the username, one for each link call
  that the store answered without an exception.
\<close>

fun log_line :: "event \<Rightarrow> string list" where
  "log_line (LoggingDebug msg) = [msg]"
| "log_line _ = []"

definition log_lines :: "event list \<Rightarrow> string list" where
  "log_lines t = concat (map log_line t)"

definition link_message :: "identity_type \<Rightarrow> string \<Rightarrow> string" where
  "link_message ty username =
     (case ty of
        OIDC \<Rightarrow> ''Added OIDC identity for User '' @ username @ '' ***''
      | X509 \<Rightarrow> ''Added X509 identity for User '' @ username @ '' ***'')"

fun success_line :: "event \<Rightarrow> string list" where
  "success_line (AddAccountIdentity k ty u email r) =
     (if r = Inr () then [link_message ty u] else [])"
| "success_line _ = []"

definition success_lines :: "event list \<Rightarrow> string list" where
  "success_lines t = concat (map success_line t)"

section \<open>A concrete store and concrete users for the examples\<close>

text \<open>
  A small store in memory, the concrete collaborator of the examples below; it is not part
  of the script. It keeps the accounts and the identity links, refuses a second account of
  the same name, a link for an account it does not have and a link it already has, and
  knows two storage elements.
\<close>

record mem =
  accounts :: "(string \<times> account_type \<times> string) list"
  identities :: "(string \<times> identity_type \<times> string \<times> string) list"

definition has_account :: "mem \<Rightarrow> string \<Rightarrow> bool" where
  "has_account s u = (u \<in> set (map fst (accounts s)))"

definition has_identity :: "mem \<Rightarrow> string \<Rightarrow> identity_type \<Rightarrow> bool" where
  "has_identity s k ty = ((k, ty) \<in> set (map (\<lambda>l. (fst l, fst (snd l))) (identities s)))"

definition mem_store :: "mem store" where
  "mem_store =
     \<lparr>get_session = (\<lambda>s. (Inr (), s)),
      connection = (\<lambda>s. (Inr (), s)),
      account_exists = (\<lambda>u s. (Inr (has_account s u), s)),
      add_account = (\<lambda>u ty email s.
        if has_account s u then (Inl (Raised ''Duplicate''), s)
        else (Inr (), s\<lparr>accounts := accounts s @ [(u, ty, email)]\<rparr>)),
      list_rses = (\<lambda>s. (Inr [\<lparr>rse_id = ''RSE_A''\<rparr>, \<lparr>rse_id = ''RSE_B''\<rparr>], s)),
      set_local_account_limit = (\<lambda>u rid n s. (Inr (), s)),
      add_account_attribute = (\<lambda>u k v s. (Inr (), s)),
      add_account_identity = (\<lambda>k ty u email s.
        if \<not> has_account s u then (Inl (Raised ''AccountNotFound''), s)
        else if has_identity s k ty then (Inl (Raised ''Duplicate''), s)
        else (Inr (), s\<lparr>identities := identities s @ [(k, ty, u, email)]\<rparr>))\<rparr>"

text \<open>The same store with a database that refuses every account creation.\<close>

definition refusing_store :: "mem store" where
  "refusing_store =
     mem_store\<lparr>add_account := (\<lambda>u ty email s. (Inl (Raised ''DatabaseException''), s))\<rparr>"

text \<open>The same store with quota grants that fail.\<close>

definition quotaless_store :: "mem store" where
  "quotaless_store =
     mem_store\<lparr>set_local_account_limit := (\<lambda>u rid n s. (Inl (Raised ''RSENotFound''), s))\<rparr>"

definition mem_empty :: mem where
  "mem_empty = \<lparr>accounts = [], identities = []\<rparr>"

definition alice :: directory_user where
  "alice = \<lparr>userName = ''alice'', emails = [''alice@example.org''], user_id = ''id-alice'',
            indigoUser = Some \<lparr>certificates =
              Some [\<lparr>subjectDn = Some ''CN=Alice,OU=Org,O=Example''\<rparr>]\<rparr>\<rparr>"

definition bob :: directory_user where
  "bob = \<lparr>userName = ''bob'', emails = [''bob@example.org'', ''rob@example.org''],
          user_id = ''id-bob'', indigoUser = None\<rparr>"

text \<open>A user without an email entry.\<close>

definition carol :: directory_user where
  "carol = \<lparr>userName = ''carol'', emails = [], user_id = ''id-carol'', indigoUser = None\<rparr>"

text \<open>A username of 26 characters, and one of 25.\<close>

definition long_user :: directory_user where
  "long_user = \<lparr>userName = ''abcdefghijklmnopqrstuvwxyz'', emails = [''long@example.org''],
                user_id = ''id-long'',
                indigoUser = Some \<lparr>certificates = Some [\<lparr>subjectDn = Some ''CN=Long,O=Example''\<rparr>]\<rparr>\<rparr>"

definition exact_user :: directory_user where
  "exact_user = \<lparr>userName = ''abcdefghijklmnopqrstuvwxy'', emails = [''exact@example.org''],
                 user_id = ''id-exact'',
                 indigoUser = Some \<lparr>certificates = Some [\<lparr>subjectDn = Some ''CN=Exact,O=Example''\<rparr>]\<rparr>\<rparr>"

text \<open>Two certificates of one user whose subjects differ and whose keys are the same.\<close>

definition dave :: directory_user where
  "dave = \<lparr>userName = ''dave'', emails = [''dave@example.org''], user_id = ''id-dave'',
           indigoUser = Some \<lparr>certificates =
             Some [\<lparr>subjectDn = Some ''A,B''\<rparr>, \<lparr>subjectDn = Some ''B/A''\<rparr>]\<rparr>\<rparr>"

text \<open>An endpoint that serves the directory listing \<open>d\<close> at every URL, for every token.\<close>

definition iam_endpoint :: "(int \<Rightarrow> int \<Rightarrow> error + scim_response) \<Rightarrow> http_get" where
  "iam_endpoint d url auth = d"


section \<open>Properties of the DN transform\<close>

declare components.simps [simp del]

lemma components_Nil: "components [] = [ [] ]"
  by (simp add: components.simps)

lemma components_not_Nil: "components s \<noteq> []"
  by (subst components.simps) simp

lemma components_comma: "components (CHR '','' # xs) = [] # components xs"
  by (subst components.simps) simp

lemma components_other:
  assumes "x \<noteq> CHR '',''"
  shows "components (x # xs) = (x # hd (components xs)) # tl (components xs)"
proof (cases "CHR '','' \<in> set xs")
  case True
  have "components (x # xs) = takeWhile (\<lambda>c. c \<noteq> CHR '','') (x # xs)
           # components (tl (dropWhile (\<lambda>c. c \<noteq> CHR '','') (x # xs)))"
    using True by (subst components.simps) simp
  moreover have "components xs = takeWhile (\<lambda>c. c \<noteq> CHR '','') xs
           # components (tl (dropWhile (\<lambda>c. c \<noteq> CHR '','') xs))"
    using True by (subst components.simps) simp
  ultimately show ?thesis using assms by simp
next
  case False
  have "components (x # xs) = [x # xs]"
    using False assms by (subst components.simps) simp
  moreover have "components xs = [xs]"
    using False by (subst components.simps) simp
  ultimately show ?thesis by simp
qed

lemma split_scan_components:
  "split_scan (CHR '','') cur s = (cur @ hd (components s)) # tl (components s)"
proof (induction s arbitrary: cur)
  case Nil
  show ?case by (simp add: components_Nil)
next
  case (Cons x xs)
  show ?case
  proof (cases "x = CHR '',''")
    case True
    then show ?thesis
      using components_not_Nil [of xs] by (simp add: Cons.IH components_comma)
  next
    case False
    then show ?thesis by (simp add: Cons.IH components_other)
  qed
qed

lemma py_split_components: "py_split (CHR '','') s = components s"
  using components_not_Nil [of s] by (simp add: py_split_def split_scan_components)

lemma concat_slash_join:
  "comps \<noteq> [] \<Longrightarrow> concat (map (\<lambda>c. CHR ''/'' # c) comps) = CHR ''/'' # py_join ''/'' comps"
  by (induction "''/''" comps rule: py_join.induct) simp_all

lemma joined_with_slash_join: "joined_with_slash comps = py_join ''/'' comps"
  by (cases "comps = []") (simp_all add: joined_with_slash_def concat_slash_join)

text \<open>
  The scan is a splitting: joining its pieces with the separator gives the text back, and
  no piece holds a separator.
\<close>

lemma split_scan_not_Nil: "split_scan sep cur s \<noteq> []"
  by (induction s arbitrary: cur) simp_all

lemma join_split_scan: "py_join [sep] (split_scan sep cur s) = cur @ s"
proof (induction s arbitrary: cur)
  case Nil
  show ?case by simp
next
  case (Cons x xs)
  have ne: "split_scan sep [] xs \<noteq> []" by (rule split_scan_not_Nil)
  show ?case
  proof (cases "x = sep")
    case True
    obtain p ps where "split_scan sep [] xs = p # ps" using ne by (cases "split_scan sep [] xs") auto
    then show ?thesis using True Cons.IH [of "[]"] by simp
  next
    case False
    then show ?thesis by (simp add: Cons.IH)
  qed
qed

lemma split_scan_pieces: "sep \<notin> set cur \<Longrightarrow> \<forall>p \<in> set (split_scan sep cur s). sep \<notin> set p"
proof (induction s arbitrary: cur)
  case Nil
  then show ?case by simp
next
  case (Cons x xs)
  have a: "\<forall>p \<in> set (split_scan sep [] xs). sep \<notin> set p"
    by (rule Cons.IH) simp
  have b: "x \<noteq> sep \<Longrightarrow> \<forall>p \<in> set (split_scan sep (cur @ [x]) xs). sep \<notin> set p"
    using Cons.prems by (intro Cons.IH) simp
  show ?case using a b Cons.prems by simp
qed

lemma py_split_roundtrip: "py_join '','' (py_split (CHR '','') s) = s"
  using join_split_scan [of "CHR '',''" "[]" s] by (simp add: py_split_def)

text \<open>
  \<^bold>\<open>C2.\<close> For every input string the transform of the script equals the string obtained
  by splitting the input on \<open>,\<close>, reversing the components, joining them with \<open>/\<close> and
  prepending \<open>/\<close>; on \<open>CN=Alice,OU=Org,O=Example\<close> it gives
  \<open>/O=Example/OU=Org/CN=Alice\<close> and on \<open>CN=Bob\<close> it gives \<open>/CN=Bob\<close>. The model is a
  function from strings to strings with no error value: no input makes it fail.
\<close>

theorem make_gridmap_compatible_is_toCanonicalKey:
  "make_gridmap_compatible s = toCanonicalKey s \<and>
   make_gridmap_compatible ''CN=Alice,OU=Org,O=Example'' = ''/O=Example/OU=Org/CN=Alice'' \<and>
   make_gridmap_compatible ''CN=Bob'' = ''/CN=Bob''"
proof (intro conjI)
  show "make_gridmap_compatible s = toCanonicalKey s"
    by (simp add: make_gridmap_compatible_def toCanonicalKey_def py_split_components
        joined_with_slash_join)
  show "make_gridmap_compatible ''CN=Alice,OU=Org,O=Example'' = ''/O=Example/OU=Org/CN=Alice''"
    by (simp add: make_gridmap_compatible_def py_split_def)
  show "make_gridmap_compatible ''CN=Bob'' = ''/CN=Bob''"
    by (simp add: make_gridmap_compatible_def py_split_def)
qed


section \<open>Properties of the paginated fetch\<close>

text \<open>
  The loop asks for the start indices \<open>startIndex\<close>, \<open>startIndex + count\<close>,
  \<open>startIndex + 2 * count\<close>, ... in turn. If each of these requests is answered with a
  page of zero items and a total above the count reached so far, no run of the loop from
  this state returns.
\<close>

lemma fetch_pages_stalls:
  assumes "\<forall>n::nat. \<exists>r. get (startIndex + int n * count) count = Inr r \<and> itemsPerPage r = 0
             \<and> users_so_far < totalResults r"
  shows "fetch_pages get startIndex count iam_users users_so_far sent = None"
proof -
  let ?P = "\<lambda>g si c (iu :: directory_user list) usf (sn :: (int \<times> int) list)
               (y :: (error + directory_user list) \<times> (int \<times> int) list).
             g = get \<longrightarrow> c = count \<longrightarrow> usf = users_so_far \<longrightarrow>
             (\<exists>n::nat. si = startIndex + int n * count) \<longrightarrow> False"
  have step: "?P g si c iu usf sn y"
    if IH: "\<And>g si c iu usf sn y. f g si c iu usf sn = Some y \<Longrightarrow> ?P g si c iu usf sn y"
      and body: "(case g si c of
          Inl e \<Rightarrow> Some (Inl e, sn @ [(si, c)])
        | Inr response \<Rightarrow>
            if usf + itemsPerPage response < totalResults response
            then f g (si + c) c (iu @ Resources response) (usf + itemsPerPage response)
                   (sn @ [(si, c)])
            else Some (Inr (iu @ Resources response), sn @ [(si, c)])) = Some y"
    for f g si c iu usf sn y
  proof (intro impI)
    assume g: "g = get" and c: "c = count" and usf: "usf = users_so_far"
      and "\<exists>n::nat. si = startIndex + int n * count"
    then obtain n :: nat where si: "si = startIndex + int n * count" by blast
    obtain r where r: "get si count = Inr r" "itemsPerPage r = 0" "users_so_far < totalResults r"
      using assms si by blast
    have again: "f get (si + count) count (iu @ Resources r) users_so_far (sn @ [(si, count)])
        = Some y"
      using body r by (simp add: g c usf)
    have "si + count = startIndex + int (Suc n) * count"
      by (simp add: si algebra_simps)
    then have "\<exists>m::nat. si + count = startIndex + int m * count" by blast
    with IH [OF again] show False by blast
  qed
  have "fetch_pages get startIndex count iam_users users_so_far sent \<noteq> Some y" for y
  proof
    assume "fetch_pages get startIndex count iam_users users_so_far sent = Some y"
    then have "?P get startIndex count iam_users users_so_far sent y"
      by (rule fetch_pages.raw_induct [where P = ?P, rotated]) (rule step)
    moreover have "\<exists>n::nat. startIndex = startIndex + int n * count"
      by (rule exI [of _ 0]) simp
    ultimately show False by blast
  qed
  then show ?thesis by (cases "fetch_pages get startIndex count iam_users users_so_far sent") auto
qed

text \<open>
  The same for a page size that is not negative, worded with the start indices from the
  current one on.
\<close>

lemma fetch_pages_stalls_from:
  assumes "0 \<le> count"
    and "\<forall>si \<ge> startIndex. \<exists>r. get si count = Inr r \<and> itemsPerPage r = 0
             \<and> users_so_far < totalResults r"
  shows "fetch_pages get startIndex count iam_users users_so_far sent = None"
proof (rule fetch_pages_stalls, intro allI)
  fix n :: nat
  have "0 \<le> int n * count" using assms(1) by simp
  then have "startIndex \<le> startIndex + int n * count" by simp
  then show "\<exists>r. get (startIndex + int n * count) count = Inr r \<and> itemsPerPage r = 0
             \<and> users_so_far < totalResults r"
    using assms(2) by blast
qed

lemma pages_needed_last:
  assumes "0 < P" and "k * P < T" and "T \<le> Suc k * P"
  shows "pages_needed T P = Suc k"
  unfolding pages_needed_def
proof (rule div_nat_eqI)
  show "P * Suc k \<le> T + P - 1" using assms by (simp add: mult.commute)
  show "T + P - 1 < P * Suc (Suc k)" using assms by (simp add: mult.commute)
qed

lemma pages_needed_more:
  assumes "0 < P" and "Suc k * P < T"
  shows "Suc k < pages_needed T P"
proof -
  have "Suc (Suc k) * P \<le> T + P - 1" using assms by simp
  then have "Suc (Suc k) \<le> (T + P - 1) div P"
    using assms(1) by (simp add: less_eq_div_iff_mult_less_eq)
  then show ?thesis by (simp add: pages_needed_def)
qed

lemma pages_needed_0: "0 < P \<Longrightarrow> pages_needed 0 P = 0"
  by (simp add: pages_needed_def)

lemma scim_directory_page:
  "scim_directory us (1 + int a) (int P) =
     Inr \<lparr>Resources = take P (drop a us),
          itemsPerPage = int (min (length us - a) P),
          totalResults = int (length us)\<rparr>"
  by (simp add: scim_directory_def Let_def)

lemma fetch_pages_next:
  assumes "a + P < length us"
  shows "fetch_pages (scim_directory us) (1 + int a) (int P) (take a us) (int a) sent
         = fetch_pages (scim_directory us) (1 + int (a + P)) (int P) (take (a + P) us)
             (int (a + P)) (sent @ [(1 + int a, int P)])"
proof -
  have full: "min (length us - a) P = P" using assms by simp
  have glue: "take a us @ take P (drop a us) = take (a + P) us"
    by (simp add: take_add)
  show ?thesis
    using assms
    by (subst fetch_pages.simps) (simp add: scim_directory_page full glue add.assoc)
qed

lemma fetch_pages_last:
  assumes "length us \<le> a + P" and "a \<le> length us"
  shows "fetch_pages (scim_directory us) (1 + int a) (int P) (take a us) (int a) sent
         = Some (Inr us, sent @ [(1 + int a, int P)])"
proof -
  have rest: "min (length us - a) P = length us - a" using assms by simp
  have glue: "take a us @ take P (drop a us) = us"
    using assms by (simp add: take_add [symmetric])
  show ?thesis
    using assms
    by (subst fetch_pages.simps) (simp add: scim_directory_page rest glue)
qed

lemma fetch_pages_from:
  assumes "0 < P" and "k * P < length us \<or> k = 0"
  shows "fetch_pages (scim_directory us) (1 + int (k * P)) (int P) (take (k * P) us)
           (int (k * P)) sent
         = Some (Inr us, sent @ map (\<lambda>j. (1 + int (j * P), int P))
                                  [k..<max 1 (pages_needed (length us) P)])"
  using assms(2)
proof (induction "length us - k * P" arbitrary: k sent rule: less_induct)
  case less
  let ?T = "length us"
  have next_k: "k * P + P = Suc k * P" by simp
  show ?case
  proof (cases "Suc k * P < ?T")
    case True
    have k: "k < max 1 (pages_needed ?T P)"
      using pages_needed_more [OF assms(1) True] by simp
    have "fetch_pages (scim_directory us) (1 + int (k * P)) (int P) (take (k * P) us)
           (int (k * P)) sent
        = fetch_pages (scim_directory us) (1 + int (Suc k * P)) (int P) (take (Suc k * P) us)
           (int (Suc k * P)) (sent @ [(1 + int (k * P), int P)])"
      using True fetch_pages_next [of "k * P" P us sent] by (simp only: next_k)
    also have "\<dots> = Some (Inr us, (sent @ [(1 + int (k * P), int P)]) @
          map (\<lambda>j. (1 + int (j * P), int P)) [Suc k..<max 1 (pages_needed ?T P)])"
      using True assms(1) by (intro less.hyps) simp_all
    also have "(sent @ [(1 + int (k * P), int P)]) @
          map (\<lambda>j. (1 + int (j * P), int P)) [Suc k..<max 1 (pages_needed ?T P)]
        = sent @ map (\<lambda>j. (1 + int (j * P), int P)) [k..<max 1 (pages_needed ?T P)]"
      using k by (simp add: upt_conv_Cons del: mult_Suc)
    finally show ?thesis .
  next
    case False
    then have last: "?T \<le> k * P + P" by simp
    have within: "k * P \<le> ?T" using less.prems by auto
    have n: "max 1 (pages_needed ?T P) = Suc k"
    proof (cases "k * P < ?T")
      case True
      then show ?thesis using pages_needed_last [OF assms(1) True] last by simp
    next
      case False
      then have "k = 0" and "?T = 0" using less.prems by auto
      then show ?thesis using assms(1) by (simp add: pages_needed_0)
    qed
    show ?thesis
      unfolding n using fetch_pages_last [OF last within, of sent] by simp
  qed
qed

text \<open>
  \<^bold>\<open>C3.\<close> As stated (exactly \<open>ceil(T/P)\<close> requests for any \<open>T\<close>) the claim fails for the
  empty directory: \<open>ceil(0/100) = 0\<close>, and the loop, which sends its request before it
  looks at the total, makes one request.
\<close>

theorem empty_directory_still_one_request:
  "get_list_of_users (iam_endpoint (scim_directory [])) ''https://iam.example.org'' ''token''
     = Some (Inr [], [(1, 100)]) \<and>
   length [(1::int, 100::int)] \<noteq> pages_needed 0 100"
  by (simp add: get_list_of_users_def iam_endpoint_def scim_directory_def pages_needed_def
      fetch_pages.simps)

text \<open>
  \<^bold>\<open>C3, amended.\<close> For a directory of \<open>T\<close> users that serves pages of the size asked for,
  and any page size \<open>P \<ge> 1\<close>, the loop returns, and returns exactly the \<open>T\<close> users in the
  directory's order, after exactly \<open>max 1 (ceil(T/P))\<close> requests, also when the last page
  is shorter than \<open>P\<close>; the script itself runs the loop with \<open>P = 100\<close>.
\<close>

theorem fetch_returns_whole_directory:
  assumes "0 < P"
  shows "fetch_pages (scim_directory us) 1 (int P) [] 0 [] = Some (Inr us, page_requests P (length us)) \<and>
         length (page_requests P (length us)) = max 1 (pages_needed (length us) P) \<and>
         get_list_of_users (iam_endpoint (scim_directory us)) iam_server access_token
           = Some (Inr us, page_requests 100 (length us))"
proof -
  have a: "fetch_pages (scim_directory us) 1 (int Q) [] 0 [] = Some (Inr us, page_requests Q (length us))"
    if "0 < Q" for Q
    using fetch_pages_from [OF that, of 0 us "[]"] by (simp add: page_requests_def)
  show ?thesis
    using a [OF assms] a [of 100]
    by (simp add: get_list_of_users_def iam_endpoint_def page_requests_def)
qed

theorem fetch_returns_whole_directory_witness:
  "fetch_pages (scim_directory [alice, bob, dave]) 1 (int 2) [] 0 []
     = Some (Inr [alice, bob, dave], [(1, 2), (3, 2)]) \<and>
   get_list_of_users (iam_endpoint (scim_directory [alice, bob, dave]))
       ''https://iam.example.org'' ''token''
     = Some (Inr [alice, bob, dave], [(1, 100)])"
proof -
  have p: "0 < (2::nat)" by simp
  have r2: "page_requests 2 (length [alice, bob, dave]) = [(1, 2), (3, 2)]"
    by (simp add: page_requests_def pages_needed_def upt_conv_Cons)
  have r100: "page_requests 100 (length [alice, bob, dave]) = [(1, 100)]"
    by (simp add: page_requests_def pages_needed_def)
  show ?thesis
    using fetch_returns_whole_directory [OF p, of "[alice, bob, dave]"
        "''https://iam.example.org''" "''token''"]
    by (simp only: r2 r100)
qed

text \<open>
  \<^bold>\<open>C4.\<close> As stated (the fetch ends with a \<open>ProtocolError\<close> when a page brings nothing
  new below the reported total) the claim fails: against a directory that reports one
  user and delivers none the fetch does not return at all.
\<close>

theorem fetch_never_returns_on_stalled_directory:
  "get_list_of_users (iam_endpoint stalled_directory) ''https://iam.example.org'' ''token'' = None"
  unfolding get_list_of_users_def iam_endpoint_def
  by (rule fetch_pages_stalls) (simp add: stalled_directory_def)

text \<open>
  \<^bold>\<open>C4, amended.\<close> The loop has no guard against an inconsistent total and never
  fails with a \<open>ProtocolError\<close>: if from some point of the loop on every page it requests
  (the start indices \<open>startIndex\<close>, \<open>startIndex + count\<close>, ... from the current one on)
  returns zero items while the reported total stays above the cumulative count, the
  fetch never returns; it keeps requesting pages. What the directory delivered before
  that point does not matter. The example after the theorem is the state the script is
  in after its first request to a directory that holds one user, delivers it, and reports
  two; with it the whole fetch against that directory never returns.
\<close>

theorem fetch_has_no_progress_guard:
  assumes "\<forall>n::nat. \<exists>r. get (startIndex + int n * count) count = Inr r \<and> itemsPerPage r = 0
             \<and> users_so_far < totalResults r"
  shows "fetch_pages get startIndex count iam_users users_so_far sent = None"
  using assms by (rule fetch_pages_stalls)

theorem fetch_has_no_progress_guard_witness:
  "fetch_pages (overcounting_directory [alice]) 101 100 [alice] 1 [(1, 100)] = None \<and>
   get_list_of_users (iam_endpoint (overcounting_directory [alice]))
     ''https://iam.example.org'' ''token'' = None"
proof -
  have empty: "\<forall>n::nat. \<exists>r. overcounting_directory [alice] (101 + int n * 100) 100 = Inr r
      \<and> itemsPerPage r = 0 \<and> 1 < totalResults r"
    by (simp add: overcounting_directory_def Let_def)
  have later: "fetch_pages (overcounting_directory [alice]) 101 100 [alice] 1 [(1, 100)] = None"
    using empty by (rule fetch_has_no_progress_guard)
  have first: "fetch_pages (overcounting_directory [alice]) 1 100 [] 0 []
      = fetch_pages (overcounting_directory [alice]) 101 100 [alice] 1 [(1, 100)]"
    by (subst fetch_pages.simps) (simp add: overcounting_directory_def Let_def)
  show ?thesis
    using later first by (simp add: get_list_of_users_def iam_endpoint_def)
qed


section \<open>Outcome, events and final state of composed runs\<close>

lemma outcome_seq:
  "outcome (seq m f s) =
     (case outcome (m s) of Inl e \<Rightarrow> Inl e | Inr a \<Rightarrow> outcome (f a (final (m s))))"
  by (simp add: outcome_def final_def seq_def split: prod.splits sum.splits)

lemma events_seq:
  "events (seq m f s) =
     (case outcome (m s) of Inl e \<Rightarrow> events (m s)
      | Inr a \<Rightarrow> events (m s) @ events (f a (final (m s))))"
  by (simp add: outcome_def events_def final_def seq_def split: prod.splits sum.splits)

lemma final_seq:
  "final (seq m f s) =
     (case outcome (m s) of Inl e \<Rightarrow> final (m s) | Inr a \<Rightarrow> final (f a (final (m s))))"
  by (simp add: outcome_def final_def seq_def split: prod.splits sum.splits)

lemma call_simps [simp]:
  "outcome (call ev operation s) = fst (operation s)"
  "events (call ev operation s) = [ev (fst (operation s))]"
  "final (call ev operation s) = snd (operation s)"
  by (simp_all add: outcome_def events_def final_def call_def split: prod.splits)

lemma ret_simps [simp]:
  "outcome (ret a s) = Inr a" "events (ret a s) = []" "final (ret a s) = s"
  by (simp_all add: outcome_def events_def final_def ret_def)

lemma raise_simps [simp]:
  "outcome (raise e s) = Inl e" "events (raise e s) = []" "final (raise e s) = s"
  by (simp_all add: outcome_def events_def final_def raise_def)

lemma logging_debug_simps [simp]:
  "outcome (logging_debug msg s) = Inr ()" "events (logging_debug msg s) = [LoggingDebug msg]"
  "final (logging_debug msg s) = s"
  by (simp_all add: outcome_def events_def final_def logging_debug_def)

lemma try_except_pass_simps [simp]:
  "outcome (try_except_pass m s) = Inr ()" "events (try_except_pass m s) = events (m s)"
  "final (try_except_pass m s) = final (m s)"
  by (simp_all add: outcome_def events_def final_def try_except_pass_def split: prod.splits)

lemma first_email_simps [simp]:
  "outcome (first_email user s) = (case emails user of [] \<Rightarrow> Inl IndexError | e # _ \<Rightarrow> Inr e)"
  "events (first_email user s) = []"
  "final (first_email user s) = s"
  by (simp_all add: first_email_def split: list.splits)

lemmas seq_simps = outcome_seq events_seq final_seq

text \<open>
  A property of event lists that holds of the empty list and of a concatenation when it
  holds of the parts holds of a whole loop when it holds of every run of the body.
\<close>

lemma seq_events_closed:
  assumes "Q (events (m s))"
    and "\<And>a s'. Q (events (f a s'))"
    and "\<And>t1 t2. Q t1 \<Longrightarrow> Q t2 \<Longrightarrow> Q (t1 @ t2)"
  shows "Q (events (seq m f s))"
  using assms by (simp add: events_seq split: sum.splits)

lemma for_each_events_closed:
  assumes "Q []"
    and "\<And>x s. x \<in> set xs \<Longrightarrow> Q (events (body x s))"
    and "\<And>t1 t2. Q t1 \<Longrightarrow> Q t2 \<Longrightarrow> Q (t1 @ t2)"
  shows "Q (events (for_each body xs s))"
  using assms(2)
proof (induction xs arbitrary: s)
  case Nil
  show ?case using assms(1) by simp
next
  case (Cons x xs)
  show ?case
    unfolding for_each.simps
  proof (rule seq_events_closed [where Q = Q])
    show "Q (events (body x s))" by (rule Cons.prems) simp
    show "\<And>a s'. Q (events (for_each body xs s'))" by (rule Cons.IH) (simp add: Cons.prems)
    show "\<And>t1 t2. Q t1 \<Longrightarrow> Q t2 \<Longrightarrow> Q (t1 @ t2)" by (rule assms(3))
  qed
qed

text \<open>Sequencing is associative, and a loop over \<open>xs @ ys\<close> is the loop over xs, then the loop over ys.\<close>

lemma seq_ret: "seq (ret a) f = f a"
  by (rule ext) (simp add: seq_def ret_def split: prod.splits)

lemma seq_assoc: "seq (seq m f) g = seq m (\<lambda>a. seq (f a) g)"
  by (rule ext) (simp add: seq_def split: prod.splits sum.splits)

lemma for_each_append:
  "for_each body (xs @ ys) = seq (for_each body xs) (\<lambda>_. for_each body ys)"
  by (induction xs) (simp_all add: seq_ret seq_assoc)

text \<open>
  An exception that escapes the body at one element ends the pass there: the events are
  those up to the exception, and the elements after it are never reached.
\<close>

lemma loop_abort:
  assumes "seq opening (\<lambda>_. for_each body before) s = (Inr (), t, s1)"
    and "body x s1 = (Inl e, t', s2)"
  shows "seq opening (\<lambda>_. for_each body (before @ x # after)) s = (Inl e, t @ t', s2)"
proof -
  have "seq opening (\<lambda>_. for_each body (before @ x # after))
          = seq (seq opening (\<lambda>_. for_each body before))
              (\<lambda>_. seq (body x) (\<lambda>_. for_each body after))"
    by (simp add: for_each_append seq_assoc)
  then show ?thesis using assms by (simp add: seq_def)
qed

lemma first_email_Nil: "emails user = [] \<Longrightarrow> first_email user s = (Inl IndexError, [], s)"
  by (simp add: first_email_def raise_def)

lemma first_email_Cons: "emails user = e # es \<Longrightarrow> first_email user s = (Inr e, [], s)"
  by (simp add: first_email_def ret_def)

text \<open>The definitions unfolded to run the passes on the concrete store and users.\<close>

lemmas eval_defs = sync_accounts_def sync_accounts_user_def sync_oidc_def sync_oidc_user_def
  sync_x509_def sync_x509_user_def sync_x509_certificate_def grant_quotas_def open_session_def
  seq_def call_def ret_def raise_def try_except_pass_def logging_debug_def first_email_def
  mem_store_def refusing_store_def quotaless_store_def has_account_def has_identity_def
  mem_empty_def alice_def bob_def carol_def long_user_def exact_user_def dave_def
  make_gridmap_compatible_def py_split_def outcome_def events_def final_def Let_def


section \<open>Properties of the account pass\<close>

lemma events_grant_quotas: "\<forall>e \<in> set (events (grant_quotas st u s)). follow_up u e"
  unfolding grant_quotas_def
  by (rule seq_events_closed, simp, rule for_each_events_closed) auto

lemma events_sync_accounts_user:
  "events (sync_accounts_user st user s) = [] \<or>
   (\<exists>r. r \<noteq> Inr False \<and> events (sync_accounts_user st user s) = [AccountExists (userName user) r]) \<or>
   (\<exists>email r' rest. events (sync_accounts_user st user s) =
        AccountExists (userName user) (Inr False) # AddAccount (userName user) SERVICE email r' # rest \<and>
      (rest \<noteq> [] \<longrightarrow> r' = Inr ()) \<and> (\<forall>e \<in> set rest. follow_up (userName user) e))"
  using events_grant_quotas [of st "userName user"]
  by (auto simp: sync_accounts_user_def Let_def seq_simps split: sum.splits list.splits)

lemma events_open_session:
  "events (open_session st s) = [GetSession (fst (get_session st s))] \<or>
   events (open_session st s) = [GetSession (Inr ()), Connection (fst (connection st (snd (get_session st s))))]"
  by (auto simp: open_session_def seq_simps split: sum.splits)

lemma creates_probed_from_append:
  "creates_probed_from p t1 \<Longrightarrow> (\<And>q. creates_probed_from q t2) \<Longrightarrow> creates_probed_from p (t1 @ t2)"
  by (induction t1 arbitrary: p) simp_all

lemma follow_up_after_probe: "follow_up u e \<Longrightarrow> after_probe p e"
  by (cases e) (simp_all add: after_probe_def)

lemma follow_ups_creates_probed: "\<forall>e \<in> set t. follow_up u e \<Longrightarrow> creates_probed_from p t"
  by (induction t arbitrary: p) (auto intro: follow_up_after_probe)

lemma sync_accounts_user_creates_probed:
  "creates_probed_from p (events (sync_accounts_user st user s))"
  using events_sync_accounts_user [of st user s]
  by (auto simp: after_probe_def follow_ups_creates_probed)

lemma open_session_creates_probed: "creates_probed_from p (events (open_session st s))"
  using events_open_session [of st s] by (auto simp: after_probe_def)

text \<open>
  \<^bold>\<open>C5.\<close> As stated (a probe before every create and every link call, so that a second
  run issues no duplicate request) the claim fails for the identity passes: the OIDC pass
  submits its link call without asking the store anything first, and a second run over
  the same user submits the same link again, which the store refuses as a duplicate.
\<close>

theorem identity_link_without_probe:
  "sync_oidc mem_store ''https://iam.example.org'' [alice]
     \<lparr>accounts = [(''alice'', SERVICE, ''alice@example.org'')], identities = []\<rparr> =
     (Inr (),
      [GetSession (Inr ()), Connection (Inr ()),
       AddAccountIdentity ''SUB=id-alice, ISS=https://iam.example.org'' OIDC ''alice''
         ''alice@example.org'' (Inr ()),
       LoggingDebug ''Added OIDC identity for User alice ***''],
      \<lparr>accounts = [(''alice'', SERVICE, ''alice@example.org'')],
        identities = [(''SUB=id-alice, ISS=https://iam.example.org'', OIDC, ''alice'',
                       ''alice@example.org'')]\<rparr>) \<and>
   sync_oidc mem_store ''https://iam.example.org'' [alice]
     \<lparr>accounts = [(''alice'', SERVICE, ''alice@example.org'')],
       identities = [(''SUB=id-alice, ISS=https://iam.example.org'', OIDC, ''alice'',
                      ''alice@example.org'')]\<rparr> =
     (Inr (),
      [GetSession (Inr ()), Connection (Inr ()),
       AddAccountIdentity ''SUB=id-alice, ISS=https://iam.example.org'' OIDC ''alice''
         ''alice@example.org'' (Inl (Raised ''Duplicate''))],
      \<lparr>accounts = [(''alice'', SERVICE, ''alice@example.org'')],
        identities = [(''SUB=id-alice, ISS=https://iam.example.org'', OIDC, ''alice'',
                       ''alice@example.org'')]\<rparr>)"
  by (simp add: eval_defs)

text \<open>
  \<^bold>\<open>C5, amended.\<close> Before every account creation the engine probes the store for that
  account, and it creates only directly after the store answered that the account is
  absent. The OIDC pass and the X509 pass issue no existence probe at all: their link
  calls go to the store unprobed, and a duplicate is left to the store to refuse.
\<close>

theorem account_creation_is_probed:
  "creates_probed (events (sync_accounts st iam_users s)) \<and>
   filter is_probe (events (sync_oidc st iam_server iam_users s)) = [] \<and>
   filter is_probe (events (sync_x509 st iam_users s)) = []"
proof (intro conjI)
  have "\<forall>p. creates_probed_from p (events (sync_accounts st iam_users s))"
    unfolding sync_accounts_def
  proof (rule seq_events_closed)
    show "\<forall>p. creates_probed_from p (events (open_session st s))"
      by (simp add: open_session_creates_probed)
    show "\<forall>p. creates_probed_from p (events (for_each (sync_accounts_user st) iam_users s'))" for s'
      by (rule for_each_events_closed)
        (simp_all add: sync_accounts_user_creates_probed creates_probed_from_append)
    show "\<forall>p. creates_probed_from p t1 \<Longrightarrow> \<forall>p. creates_probed_from p t2 \<Longrightarrow>
            \<forall>p. creates_probed_from p (t1 @ t2)" for t1 t2
      by (simp add: creates_probed_from_append)
  qed
  then show "creates_probed (events (sync_accounts st iam_users s))"
    by (simp add: creates_probed_def)
next
  have session: "filter is_probe (events (open_session st s)) = []"
    using events_open_session [of st s] by auto
  have body: "filter is_probe (events (sync_oidc_user st iam_server user s')) = []" for user s'
    by (simp add: sync_oidc_user_def Let_def seq_simps split: sum.splits list.splits)
  show "filter is_probe (events (sync_oidc st iam_server iam_users s)) = []"
    unfolding sync_oidc_def
    by (rule seq_events_closed, rule session, rule for_each_events_closed)
      (simp_all add: body)
next
  have session: "filter is_probe (events (open_session st s)) = []"
    using events_open_session [of st s] by auto
  have cert: "filter is_probe (events (sync_x509_certificate st u email c s')) = []" for u email c s'
    by (simp add: sync_x509_certificate_def Let_def seq_simps split: sum.splits option.splits)
  have certs: "filter is_probe (events (for_each (sync_x509_certificate st u email) cs s')) = []"
    for u email cs s'
    by (rule for_each_events_closed) (simp_all add: cert)
  have body: "filter is_probe (events (sync_x509_user st user s')) = []" for user s'
    by (simp add: sync_x509_user_def Let_def seq_simps certs split: sum.splits list.splits option.splits)
  show "filter is_probe (events (sync_x509 st iam_users s)) = []"
    unfolding sync_x509_def
    by (rule seq_events_closed, rule session, rule for_each_events_closed)
      (simp_all add: body)
qed

lemma follow_up_provisions: "follow_up v e \<Longrightarrow> v \<noteq> u \<Longrightarrow> \<not> provisions u e"
  by (cases e) simp_all

lemma follow_up_grants: "follow_up v e \<Longrightarrow> v \<noteq> u \<Longrightarrow> \<not> grants u e"
  by (cases e) simp_all

lemma follow_ups_provisions:
  "\<forall>e \<in> set t. follow_up v e \<Longrightarrow> v \<noteq> u \<Longrightarrow> filter (provisions u) t = []"
  by (auto simp: filter_empty_conv dest: follow_up_provisions)

lemma follow_ups_grants:
  "\<forall>e \<in> set t. follow_up v e \<Longrightarrow> v \<noteq> u \<Longrightarrow> filter (grants u) t = []"
  by (auto simp: filter_empty_conv dest: follow_up_grants)

lemma sync_accounts_user_provisions:
  "AccountExists u (Inr False) \<notin> set (events (sync_accounts_user st user s)) \<Longrightarrow>
   filter (provisions u) (events (sync_accounts_user st user s)) = []"
  using events_sync_accounts_user [of st user s]
  by (cases "userName user = u") (auto simp: follow_ups_provisions)

lemma sync_accounts_user_grants:
  "filter (created u) (events (sync_accounts_user st user s)) = [] \<Longrightarrow>
   filter (grants u) (events (sync_accounts_user st user s)) = []"
  using events_sync_accounts_user [of st user s]
  by (cases "userName user = u") (auto simp: follow_ups_grants)

text \<open>
  \<^bold>\<open>C6.\<close> In a run of the account pass, for every username whose account already exists
  (the store never answers a probe of it with "absent") there is no account creation, no
  quota grant and no attribute attach; and quota grants and the attribute attach for a
  username occur only in a run that has just created that account successfully. The
  example after the theorem is a second run of the pass over the same users, on the state
  the first run left.
\<close>

theorem provisioning_only_on_creation:
  "(AccountExists u (Inr False) \<notin> set (events (sync_accounts st iam_users s)) \<longrightarrow>
      filter (provisions u) (events (sync_accounts st iam_users s)) = []) \<and>
   (filter (created u) (events (sync_accounts st iam_users s)) = [] \<longrightarrow>
      filter (grants u) (events (sync_accounts st iam_users s)) = [])"
proof (intro conjI)
  have session: "filter (provisions u) (events (open_session st s)) = []"
    using events_open_session [of st s] by auto
  show "AccountExists u (Inr False) \<notin> set (events (sync_accounts st iam_users s)) \<longrightarrow>
      filter (provisions u) (events (sync_accounts st iam_users s)) = []"
    unfolding sync_accounts_def
    by (rule seq_events_closed, simp add: session, rule for_each_events_closed)
      (simp_all add: sync_accounts_user_provisions)
next
  have session: "filter (grants u) (events (open_session st s)) = []"
    using events_open_session [of st s] by auto
  show "filter (created u) (events (sync_accounts st iam_users s)) = [] \<longrightarrow>
      filter (grants u) (events (sync_accounts st iam_users s)) = []"
    unfolding sync_accounts_def
    by (rule seq_events_closed, simp add: session, rule for_each_events_closed)
      (simp_all add: sync_accounts_user_grants)
qed

theorem provisioning_only_on_creation_witness:
  "AccountExists ''alice'' (Inr False)
     \<notin> set (events (sync_accounts mem_store [alice, bob]
                (final (sync_accounts mem_store [alice, bob] mem_empty)))) \<and>
   filter (provisions ''alice'')
     (events (sync_accounts mem_store [alice, bob]
        (final (sync_accounts mem_store [alice, bob] mem_empty)))) = [] \<and>
   filter (created ''alice'')
     (events (sync_accounts mem_store [alice, bob]
        (final (sync_accounts mem_store [alice, bob] mem_empty)))) = [] \<and>
   filter (grants ''alice'')
     (events (sync_accounts mem_store [alice, bob]
        (final (sync_accounts mem_store [alice, bob] mem_empty)))) = []"
proof -
  have first: "final (sync_accounts mem_store [alice, bob] mem_empty) =
      \<lparr>accounts = [(''alice'', SERVICE, ''alice@example.org''),
                   (''bob'', SERVICE, ''bob@example.org'')], identities = []\<rparr>"
    by (simp add: eval_defs)
  have second: "events (sync_accounts mem_store [alice, bob]
        \<lparr>accounts = [(''alice'', SERVICE, ''alice@example.org''),
                     (''bob'', SERVICE, ''bob@example.org'')], identities = []\<rparr>) =
      [GetSession (Inr ()), Connection (Inr ()),
       AccountExists ''alice'' (Inr True), AccountExists ''bob'' (Inr True)]"
    by (simp add: eval_defs)
  have absent: "AccountExists ''alice'' (Inr False)
     \<notin> set (events (sync_accounts mem_store [alice, bob]
                (final (sync_accounts mem_store [alice, bob] mem_empty))))"
    by (simp add: first second)
  have uncreated: "filter (created ''alice'')
     (events (sync_accounts mem_store [alice, bob]
        (final (sync_accounts mem_store [alice, bob] mem_empty)))) = []"
    by (simp add: first second)
  show ?thesis
    using provisioning_only_on_creation [of "''alice''" mem_store "[alice, bob]"
        "final (sync_accounts mem_store [alice, bob] mem_empty)"] absent uncreated
    by blast
qed







section \<open>Properties of all three passes\<close>

text \<open>
  \<^bold>\<open>C9.\<close> In each of the three passes the first email entry is read before any test and
  outside every handler: when the pass reaches a user whose email list is empty (the
  users before it were processed normally) it ends with \<open>IndexError\<close>, with exactly the
  events of the users before, so that neither this user nor any later one is processed.
\<close>

theorem empty_email_list_aborts_pass:
  assumes "emails user = []"
  shows "(sync_accounts st before s = (Inr (), t, s') \<longrightarrow>
            sync_accounts st (before @ user # after) s = (Inl IndexError, t, s')) \<and>
         (sync_oidc st iam_server before s = (Inr (), t, s') \<longrightarrow>
            sync_oidc st iam_server (before @ user # after) s = (Inl IndexError, t, s')) \<and>
         (sync_x509 st before s = (Inr (), t, s') \<longrightarrow>
            sync_x509 st (before @ user # after) s = (Inl IndexError, t, s'))"
proof (intro conjI impI)
  assume run: "sync_accounts st before s = (Inr (), t, s')"
  have "sync_accounts_user st user s' = (Inl IndexError, [], s')"
    using assms by (simp add: sync_accounts_user_def Let_def first_email_Nil seq_def)
  with run show "sync_accounts st (before @ user # after) s = (Inl IndexError, t, s')"
    unfolding sync_accounts_def by (simp add: loop_abort)
next
  assume run: "sync_oidc st iam_server before s = (Inr (), t, s')"
  have "sync_oidc_user st iam_server user s' = (Inl IndexError, [], s')"
    using assms by (simp add: sync_oidc_user_def Let_def first_email_Nil seq_def)
  with run show "sync_oidc st iam_server (before @ user # after) s = (Inl IndexError, t, s')"
    unfolding sync_oidc_def by (simp add: loop_abort)
next
  assume run: "sync_x509 st before s = (Inr (), t, s')"
  have "sync_x509_user st user s' = (Inl IndexError, [], s')"
    using assms by (simp add: sync_x509_user_def Let_def first_email_Nil seq_def)
  with run show "sync_x509 st (before @ user # after) s = (Inl IndexError, t, s')"
    unfolding sync_x509_def by (simp add: loop_abort)
qed

theorem empty_email_list_aborts_pass_witness:
  "sync_accounts mem_store ([alice] @ carol # [bob]) mem_empty =
     (Inl IndexError,
      [GetSession (Inr ()), Connection (Inr ()),
       AccountExists ''alice'' (Inr False),
       AddAccount ''alice'' SERVICE ''alice@example.org'' (Inr ()),
       LoggingDebug ''Created account for User alice ***'',
       ListRses (Inr [\<lparr>rse_id = ''RSE_A''\<rparr>, \<lparr>rse_id = ''RSE_B''\<rparr>]),
       SetLocalAccountLimit ''alice'' ''RSE_A'' 1000000000000 (Inr ()),
       SetLocalAccountLimit ''alice'' ''RSE_B'' 1000000000000 (Inr ()),
       AddAccountAttribute ''alice'' ''admin'' ''True'' (Inr ())],
      \<lparr>accounts = [(''alice'', SERVICE, ''alice@example.org'')], identities = []\<rparr>) \<and>
   sync_oidc mem_store ''https://iam.example.org'' ([alice] @ carol # [bob]) mem_empty =
     (Inl IndexError,
      [GetSession (Inr ()), Connection (Inr ()),
       AddAccountIdentity ''SUB=id-alice, ISS=https://iam.example.org'' OIDC ''alice''
         ''alice@example.org'' (Inl (Raised ''AccountNotFound''))],
      mem_empty) \<and>
   sync_x509 mem_store ([alice] @ carol # [bob]) mem_empty =
     (Inl IndexError,
      [GetSession (Inr ()), Connection (Inr ()),
       AddAccountIdentity ''/O=Example/OU=Org/CN=Alice'' X509 ''alice''
         ''alice@example.org'' (Inl (Raised ''AccountNotFound''))],
      mem_empty)"
proof -
  have e: "emails carol = []" by (simp add: carol_def)
  have a: "sync_accounts mem_store [alice] mem_empty =
     (Inr (),
      [GetSession (Inr ()), Connection (Inr ()),
       AccountExists ''alice'' (Inr False),
       AddAccount ''alice'' SERVICE ''alice@example.org'' (Inr ()),
       LoggingDebug ''Created account for User alice ***'',
       ListRses (Inr [\<lparr>rse_id = ''RSE_A''\<rparr>, \<lparr>rse_id = ''RSE_B''\<rparr>]),
       SetLocalAccountLimit ''alice'' ''RSE_A'' 1000000000000 (Inr ()),
       SetLocalAccountLimit ''alice'' ''RSE_B'' 1000000000000 (Inr ()),
       AddAccountAttribute ''alice'' ''admin'' ''True'' (Inr ())],
      \<lparr>accounts = [(''alice'', SERVICE, ''alice@example.org'')], identities = []\<rparr>)"
    by (simp add: eval_defs)
  have b: "sync_oidc mem_store ''https://iam.example.org'' [alice] mem_empty =
     (Inr (),
      [GetSession (Inr ()), Connection (Inr ()),
       AddAccountIdentity ''SUB=id-alice, ISS=https://iam.example.org'' OIDC ''alice''
         ''alice@example.org'' (Inl (Raised ''AccountNotFound''))],
      mem_empty)"
    by (simp add: eval_defs)
  have c: "sync_x509 mem_store [alice] mem_empty =
     (Inr (),
      [GetSession (Inr ()), Connection (Inr ()),
       AddAccountIdentity ''/O=Example/OU=Org/CN=Alice'' X509 ''alice''
         ''alice@example.org'' (Inl (Raised ''AccountNotFound''))],
      mem_empty)"
    by (simp add: eval_defs)
  note inst = empty_email_list_aborts_pass [OF e, where st = mem_store and before = "[alice]"
      and s = mem_empty and after = "[bob]" and iam_server = "''https://iam.example.org''"]
  show ?thesis
    using inst [THEN conjunct1, rule_format, OF a]
      inst [THEN conjunct2, THEN conjunct1, rule_format, OF b]
      inst [THEN conjunct2, THEN conjunct2, rule_format, OF c]
    by simp
qed


section \<open>Properties of the identity passes\<close>

lemma link_requests_append [simp]: "link_requests (t1 @ t2) = link_requests t1 @ link_requests t2"
  by (simp add: link_requests_def)

lemma link_requests_Nil [simp]: "link_requests [] = []"
  by (simp add: link_requests_def)

lemma link_requests_Cons [simp]: "link_requests (e # t) = link_of e @ link_requests t"
  by (simp add: link_requests_def)







text \<open>
  The log of an identity pass: a line is written directly after a link call that
  succeeded and nowhere else, so the lines of a run are those of its successful links.
\<close>

lemma log_lines_append [simp]: "log_lines (t1 @ t2) = log_lines t1 @ log_lines t2"
  by (simp add: log_lines_def)

lemma log_lines_Nil [simp]: "log_lines [] = []"
  by (simp add: log_lines_def)

lemma log_lines_Cons [simp]: "log_lines (e # t) = log_line e @ log_lines t"
  by (simp add: log_lines_def)

lemma success_lines_append [simp]:
  "success_lines (t1 @ t2) = success_lines t1 @ success_lines t2"
  by (simp add: success_lines_def)

lemma success_lines_Nil [simp]: "success_lines [] = []"
  by (simp add: success_lines_def)

lemma success_lines_Cons [simp]: "success_lines (e # t) = success_line e @ success_lines t"
  by (simp add: success_lines_def)










text \<open>
  The test of the username's length: the account pass and the OIDC pass skip a user whose
  username is longer than 25 characters; the X509 pass links the certificate of any user.
\<close>

lemma sync_accounts_user_skips_long:
  "25 < length (userName user) \<Longrightarrow> emails user = e # es \<Longrightarrow>
     sync_accounts_user st user s = (Inr (), [], s)"
  by (simp add: sync_accounts_user_def Let_def first_email_Cons seq_def ret_def)

lemma sync_oidc_user_skips_long:
  "25 < length (userName user) \<Longrightarrow> emails user = e # es \<Longrightarrow>
     sync_oidc_user st iam_server user s = (Inr (), [], s)"
  by (simp add: sync_oidc_user_def Let_def first_email_Cons seq_def ret_def)

lemma sync_x509_user_links_any_length:
  "emails user = e # es \<Longrightarrow>
   indigoUser user = Some \<lparr>certificates = Some [\<lparr>subjectDn = Some dn\<rparr>]\<rparr> \<Longrightarrow>
   events (sync_x509_user st user s) \<noteq> [] \<and>
   hd (events (sync_x509_user st user s)) =
     AddAccountIdentity (make_gridmap_compatible dn) X509 (userName user) e
       (fst (add_account_identity st (make_gridmap_compatible dn) X509 (userName user) e s))"
  by (simp add: sync_x509_user_def sync_x509_certificate_def Let_def seq_simps
      split: sum.splits)

lemma exact_length_is_processed:
  "length (userName exact_user) = 25 \<and>
   link_requests (events (sync_oidc mem_store ''https://iam.example.org'' [exact_user] mem_empty)) =
     [(''SUB=id-exact, ISS=https://iam.example.org'', OIDC, ''abcdefghijklmnopqrstuvwxy'',
       ''exact@example.org'')] \<and>
   link_requests (events (sync_x509 mem_store [exact_user] mem_empty)) =
     [(''/O=Example/CN=Exact'', X509, ''abcdefghijklmnopqrstuvwxy'', ''exact@example.org'')] \<and>
   filter (created ''abcdefghijklmnopqrstuvwxy'')
     (events (sync_accounts mem_store [exact_user] mem_empty)) =
     [AddAccount ''abcdefghijklmnopqrstuvwxy'' SERVICE ''exact@example.org'' (Inr ())]"
  by (simp add: eval_defs link_requests_def)

text \<open>
  \<^bold>\<open>C1.\<close> A user whose username is longer than 25 characters is to be skipped by all
  three passes. For a username of 26 characters the account pass and the OIDC pass submit
  nothing, and the X509 pass, whose loop lacks the test the other two have, submits the
  X509 link of that user's certificate to the store.
\<close>

theorem x509_pass_links_long_username:
  "length (userName long_user) = 26 \<and>
   sync_accounts mem_store [long_user] mem_empty =
     (Inr (), [GetSession (Inr ()), Connection (Inr ())], mem_empty) \<and>
   sync_oidc mem_store ''https://iam.example.org'' [long_user] mem_empty =
     (Inr (), [GetSession (Inr ()), Connection (Inr ())], mem_empty) \<and>
   sync_x509 mem_store [long_user] mem_empty =
     (Inr (),
      [GetSession (Inr ()), Connection (Inr ()),
       AddAccountIdentity ''/O=Example/CN=Long'' X509 ''abcdefghijklmnopqrstuvwxyz''
         ''long@example.org'' (Inl (Raised ''AccountNotFound''))],
      mem_empty)"
  by (simp add: eval_defs)

text \<open>
  \<^bold>\<open>C10.\<close> The DN transform is not injective: the distinct subjects \<open>A,B\<close> and \<open>B/A\<close>
  both become \<open>/B/A\<close>, so two different certificates of a user ask for the same X509
  identity key, and the store refuses the second as a duplicate of the first.
\<close>

theorem dn_transform_not_injective:
  "''A,B'' \<noteq> ''B/A'' \<and>
   make_gridmap_compatible ''A,B'' = ''/B/A'' \<and>
   make_gridmap_compatible ''B/A'' = ''/B/A'' \<and>
   \<not> inj make_gridmap_compatible \<and>
   sync_x509 mem_store [dave]
     \<lparr>accounts = [(''dave'', SERVICE, ''dave@example.org'')], identities = []\<rparr> =
     (Inr (),
      [GetSession (Inr ()), Connection (Inr ()),
       AddAccountIdentity ''/B/A'' X509 ''dave'' ''dave@example.org'' (Inr ()),
       LoggingDebug ''Added X509 identity for User dave ***'',
       AddAccountIdentity ''/B/A'' X509 ''dave'' ''dave@example.org''
         (Inl (Raised ''Duplicate''))],
      \<lparr>accounts = [(''dave'', SERVICE, ''dave@example.org'')],
        identities = [(''/B/A'', X509, ''dave'', ''dave@example.org'')]\<rparr>)"
proof (intro conjI)
  show "''A,B'' \<noteq> ''B/A''" by simp
  show ab: "make_gridmap_compatible ''A,B'' = ''/B/A''"
    by (simp add: make_gridmap_compatible_def py_split_def)
  show ba: "make_gridmap_compatible ''B/A'' = ''/B/A''"
    by (simp add: make_gridmap_compatible_def py_split_def)
  show "\<not> inj make_gridmap_compatible"
  proof
    assume "inj make_gridmap_compatible"
    moreover have "make_gridmap_compatible ''A,B'' = make_gridmap_compatible ''B/A''"
      by (simp only: ab ba)
    ultimately have "''A,B'' = ''B/A''" by (rule injD)
    then show False by simp
  qed
  show "sync_x509 mem_store [dave]
     \<lparr>accounts = [(''dave'', SERVICE, ''dave@example.org'')], identities = []\<rparr> =
     (Inr (),
      [GetSession (Inr ()), Connection (Inr ()),
       AddAccountIdentity ''/B/A'' X509 ''dave'' ''dave@example.org'' (Inr ()),
       LoggingDebug ''Added X509 identity for User dave ***'',
       AddAccountIdentity ''/B/A'' X509 ''dave'' ''dave@example.org''
         (Inl (Raised ''Duplicate''))],
      \<lparr>accounts = [(''dave'', SERVICE, ''dave@example.org'')],
        identities = [(''/B/A'', X509, ''dave'', ''dave@example.org'')]\<rparr>)"
    by (simp add: eval_defs)
qed

end
